theory Spec2Isabelle
  imports Main
begin

section \<open>JavaScript strings\<close>

text \<open>
  A JavaScript string is modelled as a \<open>string\<close>, one \<open>char\<close> per code unit, so the
  model covers the strings whose code units are below 256. \<open>length\<close> is the
  \<^verbatim>\<open>.length\<close> of the source.
\<close>

text \<open>
  The line terminators, which the \<^verbatim>\<open>.\<close> of a regular expression does not match
  (line feed and carriage return; U+2028 and U+2029 are outside the model).
\<close>

definition isLineTerminator :: "char \<Rightarrow> bool" where
  "isLineTerminator c = (c = CHR 0x0A \<or> c = CHR 0x0D)"

definition lowerLetters :: string where
  "lowerLetters = ''abcdefghijklmnopqrstuvwxyz''"

definition upperLetters :: string where
  "upperLetters = ''ABCDEFGHIJKLMNOPQRSTUVWXYZ''"

definition digits :: string where
  "digits = ''0123456789''"

text \<open>
  \<^verbatim>\<open>String.prototype.toUpperCase\<close> on the characters that
  \<^verbatim>\<open>Number.prototype.toString(36)\<close> produces: a lower-case ASCII letter becomes
  its upper-case letter, a digit or a dot stays.
\<close>

definition toUpperChar :: "char \<Rightarrow> char" where
  "toUpperChar c = (case map_of (zip lowerLetters upperLetters) c of Some u \<Rightarrow> u | None \<Rightarrow> c)"

definition toUpperCase :: "string \<Rightarrow> string" where
  "toUpperCase s = map toUpperChar s"

text \<open>
  \<^verbatim>\<open>s.substring(a, b)\<close>: both indices are clamped to the length, and swapped when
  the first is the larger.
\<close>

definition substring :: "string \<Rightarrow> nat \<Rightarrow> nat \<Rightarrow> string" where
  "substring s a b =
     (let n = length s; a' = min a n; b' = min b n;
          from = min a' b'; to = max a' b'
      in take (to - from) (drop from s))"

section \<open>Masking an email: \<^verbatim>\<open>email.replace(/(.{2})(.*)(?=@)/, ...)\<close>\<close>

text \<open>
  \<open>lookahead t k\<close>: the lookahead \<^verbatim>\<open>(?=@)\<close> at position \<open>k\<close> of \<open>t\<close>.
\<close>

definition lookahead :: "string \<Rightarrow> nat \<Rightarrow> bool" where
  "lookahead t k = (k < length t \<and> t ! k = CHR ''@'')"

text \<open>
  The greedy \<^verbatim>\<open>(.*)\<close> first takes \<open>k\<close> characters and gives them back one at a
  time until the lookahead holds.
\<close>

fun backtrack :: "string \<Rightarrow> nat \<Rightarrow> nat option" where
  "backtrack t 0 = (if lookahead t 0 then Some 0 else None)"
| "backtrack t (Suc k) = (if lookahead t (Suc k) then Some (Suc k) else backtrack t k)"

text \<open>
  A match of the whole pattern that starts at the first character of \<open>s\<close>: the two
  groups \<open>(start, rest)\<close>. \<^verbatim>\<open>(.{2})\<close> needs two characters that are not line
  terminators; \<^verbatim>\<open>(.*)\<close> can reach as far as the next line terminator.
\<close>

definition matchHere :: "string \<Rightarrow> (string \<times> string) option" where
  "matchHere s =
     (case s of
        a # b # t \<Rightarrow>
          if isLineTerminator a \<or> isLineTerminator b then None
          else (case backtrack t (length (takeWhile (\<lambda>c. \<not> isLineTerminator c) t)) of
                  None \<Rightarrow> None
                | Some k \<Rightarrow> Some ([a, b], take k t))
      | _ \<Rightarrow> None)"

text \<open>
  \<^verbatim>\<open>replace\<close> with a pattern that has no \<^verbatim>\<open>g\<close> flag: the start positions are
  tried from left to right, the first match is replaced by the callback's result
  \<^verbatim>\<open>start + '*'.repeat(rest.length)\<close>, and a string with no match is returned as it is.
\<close>

fun maskEmail :: "string \<Rightarrow> string" where
  "maskEmail [] = []"
| "maskEmail (c # cs) =
     (case matchHere (c # cs) of
        Some (start, rest) \<Rightarrow>
          start @ replicate (length rest) CHR ''*'' @ drop (length start + length rest) (c # cs)
      | None \<Rightarrow> c # maskEmail cs)"

section \<open>Validating an email: \<^verbatim>\<open>z.string().email()\<close>\<close>

text \<open>
  The check of the zod library, which the repository uses and does not contain: the
  pattern
  \<^verbatim>\<open>/^(?!\.)(?!.*\.\.)([A-Z0-9_'+\-\.]*)[A-Z0-9_+-]@([A-Z0-9][A-Z0-9\-]*\.)+[A-Z]{2,}$/i\<close>
  of zod 3.22 and later.
\<close>

definition isLetter :: "char \<Rightarrow> bool" where
  "isLetter c = (c \<in> set lowerLetters \<or> c \<in> set upperLetters)"

definition isAlnum :: "char \<Rightarrow> bool" where
  "isAlnum c = (isLetter c \<or> c \<in> set digits)"

definition isLocalChar :: "char \<Rightarrow> bool" where
  "isLocalChar c = (isAlnum c \<or> c \<in> set [CHR ''_'', CHR 0x27, CHR ''+'', CHR ''-'', CHR ''.''])"

definition isLocalEnd :: "char \<Rightarrow> bool" where
  "isLocalEnd c = (isAlnum c \<or> c \<in> set [CHR ''_'', CHR ''+'', CHR ''-''])"

fun hasDotDot :: "string \<Rightarrow> bool" where
  "hasDotDot (a # b # t) = ((a = CHR ''.'' \<and> b = CHR ''.'') \<or> hasDotDot (b # t))"
| "hasDotDot _ = False"

text \<open>The pieces of a string between the occurrences of \<open>sep\<close>.\<close>

fun splitOn :: "char \<Rightarrow> string \<Rightarrow> string list" where
  "splitOn sep [] = [Nil]"
| "splitOn sep (c # cs) =
     (if c = sep then [] # splitOn sep cs
      else (case splitOn sep cs of p # ps \<Rightarrow> (c # p) # ps | [] \<Rightarrow> [c] # []))"

definition isLabel :: "string \<Rightarrow> bool" where
  "isLabel l = (l \<noteq> [] \<and> isAlnum (hd l) \<and> list_all (\<lambda>c. isAlnum c \<or> c = CHR ''-'') (tl l))"

definition isTld :: "string \<Rightarrow> bool" where
  "isTld l = (2 \<le> length l \<and> list_all isLetter l)"

definition isEmail :: "string \<Rightarrow> bool" where
  "isEmail s =
     (let local = takeWhile (\<lambda>c. c \<noteq> CHR ''@'') s;
          rest = dropWhile (\<lambda>c. c \<noteq> CHR ''@'') s;
          labels = splitOn CHR ''.'' (tl rest)
      in rest \<noteq> [] \<and> local \<noteq> [] \<and> hd local \<noteq> CHR ''.'' \<and> \<not> hasDotDot s
         \<and> list_all isLocalChar local \<and> isLocalEnd (last local)
         \<and> 2 \<le> length labels \<and> list_all isLabel (butlast labels) \<and> isTld (last labels))"

section \<open>The subscriber table (\<^verbatim>\<open>prisma/schema.prisma\<close>)\<close>

text \<open>
  The columns of \<^verbatim>\<open>model Subscriber\<close>; the column \<^verbatim>\<open>id\<close> is the field
  \<open>subscriber_id\<close>. The table is the list of its rows, oldest first.
\<close>

record subscriber =
  subscriber_id :: string
  email :: string
  name :: "string option"
  createdAt :: nat
  updatedAt :: nat
  referralCode :: "string option"
  referredBy :: "string option"
  verified :: bool

type_synonym store = "subscriber list"

text \<open>
  What a request takes from outside the program: the string that
  \<^verbatim>\<open>Math.random().toString(36)\<close> returns, the identifier that
  \<^verbatim>\<open>@default(uuid())\<close> draws for a new row, the clock, and whether the unique index
  of the column \<^verbatim>\<open>email\<close> can hold a given email (PostgreSQL refuses an index row
  above its maximum size, which depends on how far it compresses the entry).
\<close>

record environment =
  random36 :: string
  uuid :: string
  now :: nat
  indexHolds :: "string \<Rightarrow> bool"

text \<open>
  The datasource is PostgreSQL, whose text holds no character U+0000: a query that
  carries one, in a condition or in the data of an insert, is refused, and the call of
  the Prisma client throws.
\<close>

definition storableText :: "string \<Rightarrow> bool" where
  "storableText s = (CHR 0x00 \<notin> set s)"

definition storableOption :: "string option \<Rightarrow> bool" where
  "storableOption v = (case v of None \<Rightarrow> True | Some s \<Rightarrow> storableText s)"

text \<open>
  What every table of the database satisfies: the constraints of the schema, which are
  \<^verbatim>\<open>@id\<close>, the two \<^verbatim>\<open>@unique\<close> columns (a null referral code collides with nothing)
  and the foreign key of \<^verbatim>\<open>referredBy\<close>; and no U+0000 in an email, a name or a referral
  code.
\<close>

definition wf_store :: "store \<Rightarrow> bool" where
  "wf_store db =
     (distinct (map subscriber_id db) \<and> distinct (map email db)
      \<and> distinct (filter (\<lambda>c. c \<noteq> None) (map referralCode db))
      \<and> list_all (\<lambda>s. referredBy s = None \<or> referredBy s \<in> set (map (\<lambda>r. Some (subscriber_id r)) db)) db
      \<and> list_all (\<lambda>s. storableText (email s) \<and> storableOption (name s)
                        \<and> storableOption (referralCode s)) db)"

subsection \<open>The queries of the Prisma client that the handlers use\<close>

text \<open>
  What makes a call of the client throw: a text that PostgreSQL does not take, a
  constraint of the schema, an index row that is too large.
\<close>

datatype prisma_error =
  InvalidText | UniqueConstraintFailed | ForeignKeyConstraintFailed | IndexRowTooLarge

text \<open>
  \<^verbatim>\<open>findUnique({ where: { email } })\<close> and \<^verbatim>\<open>findUnique({ where: { referralCode } })\<close>:
  the row, or null, or the error thrown.
\<close>

definition findUniqueByEmail :: "store \<Rightarrow> string \<Rightarrow> prisma_error + subscriber option" where
  "findUniqueByEmail db e =
     (if storableText e then Inr (find (\<lambda>s. email s = e) db) else Inl InvalidText)"

definition findUniqueByReferralCode :: "store \<Rightarrow> string \<Rightarrow> prisma_error + subscriber option" where
  "findUniqueByReferralCode db c =
     (if storableText c then Inr (find (\<lambda>s. referralCode s = Some c) db) else Inl InvalidText)"

text \<open>The relation \<^verbatim>\<open>referrals\<close>: the rows whose \<^verbatim>\<open>referredBy\<close> is the row's id.\<close>

definition referrals :: "store \<Rightarrow> subscriber \<Rightarrow> subscriber list" where
  "referrals db s = filter (\<lambda>r. referredBy r = Some (subscriber_id s)) db"

definition subscriberCount :: "store \<Rightarrow> nat" where
  "subscriberCount db = length db"

text \<open>
  The row that \<^verbatim>\<open>create\<close> writes for the data \<^verbatim>\<open>{email, name, referralCode, referredBy}\<close>:
  the other columns take the defaults of the schema.
\<close>

definition newRow ::
  "environment \<Rightarrow> string \<Rightarrow> string option \<Rightarrow> string option \<Rightarrow> string option \<Rightarrow> subscriber" where
  "newRow env e n rc rb =
     \<lparr> subscriber_id = uuid env, email = e, name = n,
       createdAt = now env, updatedAt = now env,
       referralCode = rc, referredBy = rb, verified = False \<rparr>"

text \<open>
  \<^verbatim>\<open>prisma.subscriber.create({data: {email, name, referralCode, referredBy}})\<close>: the
  insert is refused, and the call throws, when a text of the data holds U+0000, when a
  constraint of the schema fails, or when the index cannot hold the email; else the row
  is added and returned.
\<close>

definition create ::
  "environment \<Rightarrow> store \<Rightarrow> string \<Rightarrow> string option \<Rightarrow> string option \<Rightarrow> string option
     \<Rightarrow> prisma_error + (subscriber \<times> store)" where
  "create env db e n rc rb =
     (if \<not> (storableText e \<and> storableOption n \<and> storableOption rc)
      then Inl InvalidText
      else if uuid env \<in> set (map subscriber_id db) \<or> e \<in> set (map email db)
         \<or> (rc \<noteq> None \<and> rc \<in> set (map referralCode db))
      then Inl UniqueConstraintFailed
      else if rb \<noteq> None \<and> rb \<notin> set (map (\<lambda>r. Some (subscriber_id r)) db)
      then Inl ForeignKeyConstraintFailed
      else if \<not> indexHolds env e
      then Inl IndexRowTooLarge
      else Inr (newRow env e n rc rb, db @ [newRow env e n rc rb]))"

section \<open>Joining the waitlist (\<^verbatim>\<open>src/app/api/waitlist/route.ts\<close>)\<close>

text \<open>
  A property of the request body as \<^verbatim>\<open>request.json()\<close> returns it: absent, null, a
  string, or a value of another type (a number, a boolean, an array, an object).
\<close>

datatype json = JUndefined | JNull | JString string | JOther

text \<open>
  The request body: text that is not JSON, a JSON value that is not an object, or an
  object, of which the schema reads the properties \<^verbatim>\<open>email\<close>, \<^verbatim>\<open>name\<close> and
  \<^verbatim>\<open>referralCode\<close> (in this order).
\<close>

datatype body = InvalidJson | NotAnObject | Object json json json

text \<open>
  An issue of a field: zod's own message for a value that is missing or not a string, or
  the message that the schema gives.
\<close>

datatype issue = InvalidType | Message string

type_synonym fieldErrors = "(string \<times> issue list) list"

record waitlist_data =
  data_email :: string
  data_name :: "string option"
  data_referralCode :: "string option"

text \<open>\<^verbatim>\<open>z.string().email({ message: "Please enter a valid email address" })\<close>\<close>

definition emailField :: "json \<Rightarrow> issue list + string" where
  "emailField v =
     (case v of
        JString s \<Rightarrow> if isEmail s then Inr s else Inl [Message ''Please enter a valid email address'']
      | _ \<Rightarrow> Inl [InvalidType])"

text \<open>\<^verbatim>\<open>z.string().optional()\<close>\<close>

definition optionalString :: "json \<Rightarrow> issue list + string option" where
  "optionalString v =
     (case v of
        JUndefined \<Rightarrow> Inr None
      | JString s \<Rightarrow> Inr (Some s)
      | _ \<Rightarrow> Inl [InvalidType])"

definition fieldError :: "string \<Rightarrow> issue list + 'a \<Rightarrow> fieldErrors" where
  "fieldError k r = (case r of Inl is \<Rightarrow> [(k, is)] | Inr _ \<Rightarrow> [])"

text \<open>
  \<^verbatim>\<open>waitlistSchema.safeParse(body)\<close>, with \<^verbatim>\<open>result.error.flatten().fieldErrors\<close>
  on the left: every field is checked, and a body that is not an object has an issue of
  no field.
\<close>

definition waitlistSchema :: "body \<Rightarrow> fieldErrors + waitlist_data" where
  "waitlistSchema b =
     (case b of
        Object e n r \<Rightarrow>
          (case (emailField e, optionalString n, optionalString r) of
             (Inr e', Inr n', Inr r') \<Rightarrow>
               Inr \<lparr> data_email = e', data_name = n', data_referralCode = r' \<rparr>
           | (re, rn, rr) \<Rightarrow>
               Inl (fieldError ''email'' re @ fieldError ''name'' rn
                    @ fieldError ''referralCode'' rr))
      | _ \<Rightarrow> Inl [])"

text \<open>
  \<^verbatim>\<open>Math.random().toString(36).substring(2, 10).toUpperCase()\<close>, of the string \<open>r\<close>
  that \<^verbatim>\<open>Math.random().toString(36)\<close> returns.
\<close>

definition generateUniqueCode :: "string \<Rightarrow> string" where
  "generateUniqueCode r = toUpperCase (substring r 2 10)"

text \<open>
  The strings that \<^verbatim>\<open>toString(36)\<close> returns for a number of the interval from 0 to
  1: \<open>0\<close>, or \<open>0.\<close> and at least one digit of base 36.
\<close>

definition isBase36Fraction :: "string \<Rightarrow> bool" where
  "isBase36Fraction r =
     (r = ''0'' \<or> (take 2 r = ''0.'' \<and> drop 2 r \<noteq> []
        \<and> list_all (\<lambda>c. c \<in> set digits \<or> c \<in> set lowerLetters) (drop 2 r)))"

text \<open>The responses of the handler, with their status and message.\<close>

datatype post_response =
    ValidationError fieldErrors
  | DuplicateEmail
  | InvalidReferralCode
  | Joined "string option"
  | PostFailed

fun post_status :: "post_response \<Rightarrow> nat" where
  "post_status (ValidationError _) = 400"
| "post_status DuplicateEmail = 400"
| "post_status InvalidReferralCode = 400"
| "post_status (Joined _) = 200"
| "post_status PostFailed = 500"

fun post_message :: "post_response \<Rightarrow> string" where
  "post_message (ValidationError _) = ''Validation failed''"
| "post_message DuplicateEmail = ''This email is already on the waitlist''"
| "post_message InvalidReferralCode = ''Invalid referral code''"
| "post_message (Joined _) =
     ''Thank you for joining our waitlist! We'' @ [CHR 0x27] @ ''ll notify you when we launch.''"
| "post_message PostFailed = ''An error occurred while processing your request''"

text \<open>
  The lookup of the referrer: \<^verbatim>\<open>if (referralCode)\<close> skips it for an absent code and
  for the empty string. A lookup that throws is answered by the \<^verbatim>\<open>catch\<close> of the
  handler.
\<close>

definition findReferrer :: "store \<Rightarrow> string option \<Rightarrow> post_response + string option" where
  "findReferrer db rc =
     (case rc of
        None \<Rightarrow> Inr None
      | Some c \<Rightarrow>
          if c = [] then Inr None
          else (case findUniqueByReferralCode db c of
                  Inl err \<Rightarrow> Inl PostFailed
                | Inr None \<Rightarrow> Inl InvalidReferralCode
                | Inr (Some referrer) \<Rightarrow> Inr (Some (subscriber_id referrer))))"

text \<open>
  The handler, in the order of the source: the body is parsed and validated, the email
  is looked up, then the referral code, then the code is generated and the row
  inserted. Whatever throws is caught and answered with status 500. The result is the
  response and the table after the request.
\<close>

definition POST :: "environment \<Rightarrow> store \<Rightarrow> body \<Rightarrow> post_response \<times> store" where
  "POST env db b =
     (if b = InvalidJson then (PostFailed, db)
      else (case waitlistSchema b of
        Inl errs \<Rightarrow> (ValidationError errs, db)
      | Inr d \<Rightarrow>
          (case findUniqueByEmail db (data_email d) of
             Inl err \<Rightarrow> (PostFailed, db)
           | Inr (Some existingSubscriber) \<Rightarrow> (DuplicateEmail, db)
           | Inr None \<Rightarrow>
               (case findReferrer db (data_referralCode d) of
                  Inl resp \<Rightarrow> (resp, db)
                | Inr referrerId \<Rightarrow>
                    (case create env db (data_email d) (data_name d)
                            (Some (generateUniqueCode (random36 env))) referrerId of
                       Inl err \<Rightarrow> (PostFailed, db)
                     | Inr (row, db') \<Rightarrow> (Joined (referralCode row), db'))))))"

section \<open>The count (\<^verbatim>\<open>src/app/api/waitlist/count/route.ts\<close>)\<close>

text \<open>The handler answers with status 200 and the number of rows.\<close>

definition GET_count :: "store \<Rightarrow> nat \<times> nat" where
  "GET_count db = (200, subscriberCount db)"

section \<open>The referral statistics (the route \<^verbatim>\<open>/api/waitlist/referrals\<close>)\<close>

text \<open>
  \<^verbatim>\<open>referralQuerySchema.safeParse({ code })\<close>, where \<^verbatim>\<open>searchParams.get('code')\<close>
  is null for a request with no such parameter: \<^verbatim>\<open>z.string().min(3).max(20)\<close>.
\<close>

definition referralQuerySchema :: "string option \<Rightarrow> bool" where
  "referralQuerySchema code =
     (case code of None \<Rightarrow> False | Some c \<Rightarrow> 3 \<le> length c \<and> length c \<le> 20)"

text \<open>
  The responses: the statistics are the number of referrals and, for each, its date
  and its masked email; the last response is the one of the \<^verbatim>\<open>catch\<close>.
\<close>

datatype referrals_response =
    InvalidCodeFormat
  | NotFound
  | Stats nat "(nat \<times> string) list"
  | ReferralsFailed

fun referrals_status :: "referrals_response \<Rightarrow> nat" where
  "referrals_status InvalidCodeFormat = 400"
| "referrals_status NotFound = 404"
| "referrals_status (Stats _ _) = 200"
| "referrals_status ReferralsFailed = 500"

fun referrals_message :: "referrals_response \<Rightarrow> string option" where
  "referrals_message InvalidCodeFormat = Some ''Invalid referral code format''"
| "referrals_message NotFound = Some ''Referral code not found''"
| "referrals_message (Stats _ _) = None"
| "referrals_message ReferralsFailed = Some ''An error occurred while processing your request''"

text \<open>
  The handler: the shape of the code is checked, then the subscriber is looked up with
  the referrals; a lookup that throws is caught and answered with status 500.
\<close>

definition GET_referrals :: "store \<Rightarrow> string option \<Rightarrow> referrals_response" where
  "GET_referrals db code =
     (if \<not> referralQuerySchema code then InvalidCodeFormat
      else (case findUniqueByReferralCode db (the code) of
              Inl err \<Rightarrow> ReferralsFailed
            | Inr None \<Rightarrow> NotFound
            | Inr (Some s) \<Rightarrow>
                Stats (length (referrals db s))
                      (map (\<lambda>ref. (createdAt ref, maskEmail (email ref))) (referrals db s))))"

section \<open>The trimming that the specification speaks of\<close>

text \<open>
  \<^verbatim>\<open>String.prototype.trim\<close>: the white space and the line terminators at both ends
  are removed. No handler of the repository calls it; it serves to state what the
  specification says of the referral code.
\<close>

definition isWhiteSpace :: "char \<Rightarrow> bool" where
  "isWhiteSpace c = (c \<in> set [CHR 0x20, CHR 0x09, CHR 0x0B, CHR 0x0C, CHR 0xA0] \<or> isLineTerminator c)"

definition trim :: "string \<Rightarrow> string" where
  "trim s = rev (dropWhile isWhiteSpace (rev (dropWhile isWhiteSpace s)))"

section \<open>Example requests\<close>

text \<open>
  Two requests to join, and what they take from outside: in \<open>halfEnv\<close>
  \<^verbatim>\<open>Math.random()\<close> returns 0.5, which \<^verbatim>\<open>toString(36)\<close> renders as \<open>0.i\<close>, and in
  \<open>zeroEnv\<close> it returns 0, rendered as \<open>0\<close>. In the examples the index holds the
  emails of at most 2692 characters, which PostgreSQL takes as they are.
\<close>

definition aliceSignup :: body where
  "aliceSignup = Object (JString ''alice@example.com'') (JString ''Alice'') JUndefined"

definition bobSignup :: "string \<Rightarrow> body" where
  "bobSignup code = Object (JString ''bob@example.com'') JUndefined (JString code)"

definition halfEnv :: "string \<Rightarrow> nat \<Rightarrow> environment" where
  "halfEnv i t =
     \<lparr> random36 = ''0.i'', uuid = i, now = t, indexHolds = (\<lambda>e. length e \<le> 2692) \<rparr>"

definition zeroEnv :: "string \<Rightarrow> nat \<Rightarrow> environment" where
  "zeroEnv i t =
     \<lparr> random36 = ''0'', uuid = i, now = t, indexHolds = (\<lambda>e. length e \<le> 2692) \<rparr>"

definition longEnv :: "string \<Rightarrow> nat \<Rightarrow> environment" where
  "longEnv i t =
     \<lparr> random36 = ''0.4fzyo82mvyr'', uuid = i, now = t, indexHolds = (\<lambda>e. length e \<le> 2692) \<rparr>"

definition alice :: "string \<Rightarrow> subscriber" where
  "alice code =
     \<lparr> subscriber_id = ''id-1'', email = ''alice@example.com'', name = Some ''Alice'',
       createdAt = 1, updatedAt = 1, referralCode = Some code, referredBy = None,
       verified = False \<rparr>"

definition bob :: "string \<Rightarrow> string option \<Rightarrow> subscriber" where
  "bob code referrer =
     \<lparr> subscriber_id = ''id-2'', email = ''bob@example.com'', name = None,
       createdAt = 2, updatedAt = 2, referralCode = Some code, referredBy = referrer,
       verified = False \<rparr>"

section \<open>Properties of the masking\<close>

lemma backtrack_at:
  "CHR ''@'' \<notin> set d \<Longrightarrow> length t \<le> k \<Longrightarrow> backtrack (t @ CHR ''@'' # d) k = Some (length t)"
proof (induction k)
  case 0
  then show ?case by (simp add: lookahead_def)
next
  case (Suc k)
  show ?case
  proof (cases "length t = Suc k")
    case True
    then show ?thesis by (simp add: lookahead_def nth_append)
  next
    case False
    with Suc.prems have le: "length t \<le> k" by simp
    have "\<not> lookahead (t @ CHR ''@'' # d) (Suc k)"
    proof
      assume la: "lookahead (t @ CHR ''@'' # d) (Suc k)"
      from le have "(t @ CHR ''@'' # d) ! Suc k = d ! (k - length t)"
        by (simp add: nth_append Suc_diff_le)
      moreover from la le have "k - length t < length d"
        by (simp add: lookahead_def) arith
      ultimately have "(t @ CHR ''@'' # d) ! Suc k \<in> set d" by simp
      with la Suc.prems(1) show False by (simp add: lookahead_def)
    qed
    with Suc.IH [OF Suc.prems(1) le] show ?thesis by simp
  qed
qed

lemma backtrack_Some:
  "backtrack t k = Some j \<Longrightarrow> j < length t \<and> t ! j = CHR ''@''"
  by (induction k) (auto simp: lookahead_def split: if_splits)

lemma matchHere_Some:
  assumes "matchHere s = Some x"
  shows "CHR ''@'' \<in> set (drop 2 s)"
proof -
  from assms obtain a b t where s: "s = a # b # t"
    by (cases s rule: list.exhaust [case_names Nil Cons])
       (auto simp: matchHere_def split: list.splits)
  from assms s obtain j k where "backtrack t k = Some j"
    by (auto simp: matchHere_def split: if_splits option.splits)
  then have "j < length t \<and> t ! j = CHR ''@''" by (rule backtrack_Some)
  then have "CHR ''@'' \<in> set t" by (metis nth_mem)
  with s show ?thesis by simp
qed

lemma maskEmail_unchanged:
  "CHR ''@'' \<notin> set (drop 2 s) \<Longrightarrow> maskEmail s = s"
proof (induction s)
  case Nil
  then show ?case by simp
next
  case (Cons c cs)
  have none: "matchHere (c # cs) = None"
  proof (cases "matchHere (c # cs)")
    case None
    then show ?thesis .
  next
    case (Some x)
    from matchHere_Some [OF Some] Cons.prems show ?thesis by simp
  qed
  from Cons.prems have "CHR ''@'' \<notin> set (drop 2 cs)"
    by (cases cs) (auto dest: in_set_dropD)
  with Cons.IH none show ?case by simp
qed

lemma maskEmail_long:
  assumes dom: "CHR ''@'' \<notin> set d"
    and lt: "\<forall>c \<in> set (a # b # t). \<not> isLineTerminator c"
  shows "maskEmail (a # b # t @ CHR ''@'' # d) = a # b # replicate (length t) CHR ''*'' @ CHR ''@'' # d"
proof -
  let ?u = "t @ CHR ''@'' # d"
  have at: "\<not> isLineTerminator CHR ''@''" by (simp add: isLineTerminator_def)
  from lt have "\<forall>c \<in> set t. \<not> isLineTerminator c" by simp
  then have "takeWhile (\<lambda>c. \<not> isLineTerminator c) ?u
      = t @ takeWhile (\<lambda>c. \<not> isLineTerminator c) (CHR ''@'' # d)"
    by simp
  then have "length t \<le> length (takeWhile (\<lambda>c. \<not> isLineTerminator c) ?u)" by simp
  from backtrack_at [OF dom this]
  have "matchHere (a # b # ?u) = Some ([a, b], take (length t) ?u)"
    using lt by (simp add: matchHere_def)
  then show ?thesis by simp
qed

section \<open>The shape of an email that the signup accepts\<close>

lemma splitOn_chars: "x \<in> set cs \<Longrightarrow> x \<noteq> sep \<Longrightarrow> \<exists>p \<in> set (splitOn sep cs). x \<in> set p"
  by (induction cs) (auto split: list.splits)

lemma isAlnum_not_at: "isAlnum c \<Longrightarrow> c \<noteq> CHR ''@''"
  by (auto simp: isAlnum_def isLetter_def lowerLetters_def upperLetters_def digits_def)

lemma isAlnum_local: "isAlnum c \<Longrightarrow> isLocalChar c"
  by (simp add: isLocalChar_def)

lemma isLabel_chars: "isLabel l \<Longrightarrow> c \<in> set l \<Longrightarrow> isLocalChar c"
  by (cases l) (auto simp: isLabel_def list_all_iff isLocalChar_def)

lemma isTld_chars: "isTld l \<Longrightarrow> c \<in> set l \<Longrightarrow> isLocalChar c"
  by (auto simp: isTld_def list_all_iff isLocalChar_def isAlnum_def)

lemma isLocalChar_not_at: "isLocalChar c \<Longrightarrow> c \<noteq> CHR ''@''"
  by (auto simp: isLocalChar_def dest: isAlnum_not_at)

lemma isLocalChar_no_break: "isLocalChar c \<Longrightarrow> \<not> isLineTerminator c"
  by (auto simp: isLocalChar_def isAlnum_def isLetter_def lowerLetters_def upperLetters_def
        digits_def isLineTerminator_def)

lemma isLocalChar_storable: "isLocalChar c \<Longrightarrow> c \<noteq> CHR 0x00"
  by (auto simp: isLocalChar_def isAlnum_def isLetter_def lowerLetters_def upperLetters_def
        digits_def)

lemma isEmail_split:
  assumes "isEmail e"
  shows "\<exists>local domain. e = local @ CHR ''@'' # domain
           \<and> list_all isLocalChar local \<and> list_all isLocalChar domain"
proof -
  let ?local = "takeWhile (\<lambda>c. c \<noteq> CHR ''@'') e"
  let ?rest = "dropWhile (\<lambda>c. c \<noteq> CHR ''@'') e"
  let ?labels = "splitOn CHR ''.'' (tl ?rest)"
  from assms have rest: "?rest \<noteq> []" and loc: "list_all isLocalChar ?local"
    and len: "2 \<le> length ?labels" and labs: "list_all isLabel (butlast ?labels)"
    and tld: "isTld (last ?labels)"
    by (simp_all add: isEmail_def Let_def)
  from rest have "hd ?rest = CHR ''@''" using hd_dropWhile [of "\<lambda>c. c \<noteq> CHR ''@''" e] by simp
  with rest have r: "?rest = CHR ''@'' # tl ?rest" by (cases ?rest) auto
  have "e = ?local @ ?rest" by simp
  with r have e: "e = ?local @ CHR ''@'' # tl ?rest" by metis
  from len obtain ls l where labels: "?labels = ls @ [l]"
    by (cases ?labels rule: rev_exhaust) auto
  with labs tld have "list_all isLabel ls" and "isTld l" by simp_all
  with labels have chars: "\<forall>p \<in> set ?labels. \<forall>c \<in> set p. isLocalChar c"
    by (auto simp: list_all_iff dest: isLabel_chars isTld_chars)
  have "\<forall>c \<in> set (tl ?rest). isLocalChar c"
  proof
    fix c assume c: "c \<in> set (tl ?rest)"
    show "isLocalChar c"
    proof (cases "c = CHR ''.''")
      case True
      then show ?thesis by (simp add: isLocalChar_def)
    next
      case False
      with c have "\<exists>p \<in> set ?labels. c \<in> set p" by (rule splitOn_chars)
      with chars show ?thesis by blast
    qed
  qed
  then have "list_all isLocalChar (tl ?rest)" by (simp add: list_all_iff)
  with e loc show ?thesis by blast
qed

lemma isEmail_shape:
  assumes "isEmail e"
  shows "\<exists>local domain. e = local @ CHR ''@'' # domain \<and> CHR ''@'' \<notin> set domain
           \<and> list_all (\<lambda>c. \<not> isLineTerminator c) local"
proof -
  from isEmail_split [OF assms] obtain local domain where
    e: "e = local @ CHR ''@'' # domain" and l: "list_all isLocalChar local"
    and d: "list_all isLocalChar domain"
    by blast
  from d have "CHR ''@'' \<notin> set domain" by (auto simp: list_all_iff dest: isLocalChar_not_at)
  moreover from l have "list_all (\<lambda>c. \<not> isLineTerminator c) local"
    by (auto simp: list_all_iff dest: isLocalChar_no_break)
  ultimately show ?thesis using e by blast
qed

lemma isEmail_storable:
  assumes "isEmail e"
  shows "storableText e"
proof -
  from isEmail_split [OF assms] obtain local domain where
    e: "e = local @ CHR ''@'' # domain" and l: "list_all isLocalChar local"
    and d: "list_all isLocalChar domain"
    by blast
  from l d have "CHR 0x00 \<notin> set local" and "CHR 0x00 \<notin> set domain"
    by (auto simp: list_all_iff dest: isLocalChar_storable)
  with e show ?thesis by (simp add: storableText_def)
qed

lemma maskEmail_shape:
  assumes dom: "CHR ''@'' \<notin> set domain"
    and lt: "list_all (\<lambda>c. \<not> isLineTerminator c) local"
  shows "maskEmail (local @ CHR ''@'' # domain)
    = take 2 local @ replicate (length local - 2) CHR ''*'' @ CHR ''@'' # domain"
proof (cases local)
  case Nil
  with dom have "CHR ''@'' \<notin> set (drop 2 (local @ CHR ''@'' # domain))"
    by (auto dest: in_set_dropD)
  with Nil show ?thesis by (simp add: maskEmail_unchanged del: maskEmail.simps)
next
  case (Cons a l1)
  show ?thesis
  proof (cases l1)
    case Nil
    with Cons dom have "CHR ''@'' \<notin> set (drop 2 (local @ CHR ''@'' # domain))" by simp
    then have "maskEmail (local @ CHR ''@'' # domain) = local @ CHR ''@'' # domain"
      by (rule maskEmail_unchanged)
    with Cons Nil show ?thesis by simp
  next
    case l1: (Cons b t)
    from lt Cons l1 have "\<forall>c \<in> set (a # b # t). \<not> isLineTerminator c"
      by (simp add: list_all_iff)
    from maskEmail_long [OF dom this] Cons l1 show ?thesis by simp
  qed
qed

text \<open>
  An email that the signup accepts has one \<open>@\<close>, and no line break before it: the
  masking treats it as the lemma above says.
\<close>

lemma maskEmail_valid_email:
  assumes "isEmail e"
  shows "\<exists>local domain. e = local @ CHR ''@'' # domain \<and> CHR ''@'' \<notin> set domain
           \<and> maskEmail e = take 2 local @ replicate (length local - 2) CHR ''*'' @ CHR ''@'' # domain"
proof -
  from isEmail_shape [OF assms] obtain local domain where
    e: "e = local @ CHR ''@'' # domain" and dom: "CHR ''@'' \<notin> set domain"
    and lt: "list_all (\<lambda>c. \<not> isLineTerminator c) local"
    by blast
  from maskEmail_shape [OF dom lt] e dom show ?thesis by blast
qed

section \<open>Properties of the queries and of the insert\<close>

lemma find_append_Some: "find P xs = Some x \<Longrightarrow> find P (xs @ ys) = Some x"
  by (induction xs) (auto split: if_splits)

lemma findUniqueByEmail_None:
  "storableText e \<Longrightarrow> (findUniqueByEmail db e = Inr None) = (e \<notin> set (map email db))"
  by (auto simp: findUniqueByEmail_def find_None_iff)

lemma findUniqueByReferralCode_None:
  "storableText c \<Longrightarrow>
     (findUniqueByReferralCode db c = Inr None) = (Some c \<notin> set (map referralCode db))"
  by (auto simp: findUniqueByReferralCode_def find_None_iff image_iff)

lemma findUniqueByReferralCode_Some:
  "findUniqueByReferralCode db c = Inr (Some s) \<Longrightarrow> s \<in> set db \<and> referralCode s = Some c"
  by (auto simp: findUniqueByReferralCode_def find_Some_iff split: if_splits)

lemma find_owner:
  "distinct (filter (\<lambda>c. c \<noteq> None) (map referralCode db)) \<Longrightarrow> s \<in> set db
     \<Longrightarrow> referralCode s = Some c \<Longrightarrow> find (\<lambda>r. referralCode r = Some c) db = Some s"
proof (induction db)
  case Nil
  then show ?case by simp
next
  case (Cons x xs)
  show ?case
  proof (cases "referralCode x = Some c")
    case True
    have "s = x"
    proof (rule ccontr)
      assume "s \<noteq> x"
      with Cons.prems(2) have "s \<in> set xs" by simp
      with Cons.prems(3) have "Some c \<in> set (filter (\<lambda>c. c \<noteq> None) (map referralCode xs))"
        by force
      with Cons.prems(1) True show False by simp
    qed
    with True show ?thesis by simp
  next
    case False
    with Cons.prems(3) have "s \<noteq> x" by auto
    with Cons.prems(2) have mem: "s \<in> set xs" by simp
    from Cons.prems(1) have "distinct (filter (\<lambda>c. c \<noteq> None) (map referralCode xs))"
      by (simp split: if_splits)
    from Cons.IH [OF this mem Cons.prems(3)] False show ?thesis by simp
  qed
qed

text \<open>A code that a row of the table holds is found, and its row is the one found.\<close>

lemma findUniqueByReferralCode_owner:
  assumes "wf_store db" and "s \<in> set db" and "referralCode s = Some c"
  shows "findUniqueByReferralCode db c = Inr (Some s)"
proof -
  from assms(1) have d: "distinct (filter (\<lambda>c. c \<noteq> None) (map referralCode db))"
    by (simp add: wf_store_def)
  from assms(1,2) have "storableOption (referralCode s)"
    by (auto simp: wf_store_def list_all_iff)
  with assms(3) have "storableText c" by (simp add: storableOption_def)
  with find_owner [OF d assms(2,3)] show ?thesis by (simp add: findUniqueByReferralCode_def)
qed

lemma waitlistSchema_Inr_Object:
  "waitlistSchema b = Inr d \<Longrightarrow> b \<noteq> InvalidJson"
  by (auto simp: waitlistSchema_def)

lemma waitlistSchema_email:
  "waitlistSchema b = Inr d \<Longrightarrow> isEmail (data_email d)"
  by (cases b)
     (auto simp: waitlistSchema_def emailField_def
           split: json.splits sum.splits if_splits)

lemma findReferrer_Inr_Some:
  "findReferrer db rc = Inr (Some i) \<Longrightarrow> Some i \<in> set (map (\<lambda>r. Some (subscriber_id r)) db)"
  by (auto simp: findReferrer_def dest!: findUniqueByReferralCode_Some
           split: option.splits sum.splits if_splits)

lemma findReferrer_Inl:
  "findReferrer db rc = Inl resp \<Longrightarrow> resp = InvalidReferralCode \<or> resp = PostFailed"
  by (auto simp: findReferrer_def split: option.splits sum.splits if_splits)

lemma POST_inserts:
  assumes valid: "waitlistSchema b = Inr d"
    and fresh: "data_email d \<notin> set (map email db)"
    and ref: "findReferrer db (data_referralCode d) = Inr rb"
    and name_ok: "storableOption (data_name d)"
    and index_ok: "indexHolds env (data_email d)"
    and code_ok: "storableText (generateUniqueCode (random36 env))"
    and id_fresh: "uuid env \<notin> set (map subscriber_id db)"
    and code_fresh: "Some (generateUniqueCode (random36 env)) \<notin> set (map referralCode db)"
  shows "POST env db b =
    (Joined (Some (generateUniqueCode (random36 env))),
     db @ [newRow env (data_email d) (data_name d) (Some (generateUniqueCode (random36 env))) rb])"
proof -
  from valid have nb: "b \<noteq> InvalidJson" by (rule waitlistSchema_Inr_Object)
  from valid have st: "storableText (data_email d)"
    by (intro isEmail_storable waitlistSchema_email)
  with fresh have fe: "findUniqueByEmail db (data_email d) = Inr None"
    by (simp add: findUniqueByEmail_None)
  have fk: "rb = None \<or> rb \<in> set (map (\<lambda>r. Some (subscriber_id r)) db)"
    using ref findReferrer_Inr_Some [of db "data_referralCode d"] by (cases rb) auto
  let ?row = "newRow env (data_email d) (data_name d) (Some (generateUniqueCode (random36 env))) rb"
  have "create env db (data_email d) (data_name d) (Some (generateUniqueCode (random36 env))) rb
      = Inr (?row, db @ [?row])"
    using fresh id_fresh code_fresh fk st name_ok index_ok code_ok
    by (auto simp: create_def storableOption_def)
  with nb valid fe ref show ?thesis by (simp add: POST_def newRow_def)
qed

lemma POST_store:
  "snd (POST env db b) = db \<or> (\<exists>row. snd (POST env db b) = db @ [row] \<and> fst (POST env db b) = Joined (referralCode row))"
  by (auto simp: POST_def create_def Let_def split: sum.splits option.splits)

lemma POST_duplicate:
  assumes "waitlistSchema b = Inr d" and "data_email d \<in> set (map email db)"
  shows "POST env db b = (DuplicateEmail, db)"
proof -
  from assms(1) have nb: "b \<noteq> InvalidJson" by (rule waitlistSchema_Inr_Object)
  from assms(1) have st: "storableText (data_email d)"
    by (intro isEmail_storable waitlistSchema_email)
  with assms(2) obtain s where "findUniqueByEmail db (data_email d) = Inr (Some s)"
    by (cases "find (\<lambda>s. email s = data_email d) db")
       (auto simp: findUniqueByEmail_def find_None_iff)
  with nb assms(1) show ?thesis by (simp add: POST_def)
qed

lemma referrals_append:
  "referrals (db @ [row]) s = referrals db s @ (if referredBy row = Some (subscriber_id s) then [row] else [])"
  by (simp add: referrals_def)

lemma referrals_empty:
  "Some (subscriber_id s) \<notin> set (map referredBy db) \<Longrightarrow> referrals db s = []"
  by (force simp: referrals_def filter_empty_conv)

lemma GET_referrals_found:
  assumes "3 \<le> length c" and "length c \<le> 20" and "findUniqueByReferralCode db c = Inr (Some s)"
  shows "GET_referrals db (Some c)
    = Stats (length (referrals db s)) (map (\<lambda>ref. (createdAt ref, maskEmail (email ref))) (referrals db s))"
  using assms by (simp add: GET_referrals_def referralQuerySchema_def)

section \<open>Properties of the signup\<close>

lemma generateUniqueCode_eq: "generateUniqueCode r = map toUpperChar (take 8 (drop 2 r))"
proof -
  have "substring r 2 10 = take 8 (drop 2 r)"
    by (cases "length r \<le> 2") (auto simp: substring_def Let_def min_def max_def)
  then show ?thesis by (simp add: generateUniqueCode_def toUpperCase_def)
qed

lemma generateUniqueCode_length: "length (generateUniqueCode r) = min 8 (length r - 2)"
  by (simp add: generateUniqueCode_eq)

lemma toUpperChar_base36:
  "c \<in> set digits \<or> c \<in> set lowerLetters \<Longrightarrow> toUpperChar c \<in> set digits \<union> set upperLetters"
  by (auto simp: toUpperChar_def digits_def lowerLetters_def upperLetters_def)

lemma generateUniqueCode_chars:
  assumes "isBase36Fraction r"
  shows "set (generateUniqueCode r) \<subseteq> set digits \<union> set upperLetters"
proof (cases "r = ''0''")
  case True
  then show ?thesis by (simp add: generateUniqueCode_eq)
next
  case False
  with assms have all: "\<forall>c \<in> set (drop 2 r). c \<in> set digits \<or> c \<in> set lowerLetters"
    by (simp add: isBase36Fraction_def list_all_iff)
  show ?thesis
  proof
    fix x assume "x \<in> set (generateUniqueCode r)"
    then obtain c where c: "c \<in> set (take 8 (drop 2 r))" and x: "x = toUpperChar c"
      by (auto simp: generateUniqueCode_eq)
    from c have "c \<in> set (drop 2 r)" by (rule in_set_takeD)
    with all have "c \<in> set digits \<or> c \<in> set lowerLetters" by blast
    with x show "x \<in> set digits \<union> set upperLetters" using toUpperChar_base36 by blast
  qed
qed

text \<open>The code made of what \<^verbatim>\<open>toString(36)\<close> returns is a text that the table takes.\<close>

lemma generateUniqueCode_storable:
  assumes "isBase36Fraction r"
  shows "storableText (generateUniqueCode r)"
proof -
  have "CHR 0x00 \<notin> set digits \<union> set upperLetters"
    by (simp add: digits_def upperLetters_def)
  with generateUniqueCode_chars [OF assms] show ?thesis
    by (auto simp: storableText_def)
qed

lemma POST_new_subscriber:
  assumes valid: "waitlistSchema b = Inr d" and none: "data_referralCode d = None"
    and fresh: "data_email d \<notin> set (map email db)"
    and name_ok: "storableOption (data_name d)"
    and index_ok: "indexHolds env (data_email d)"
    and random_ok: "isBase36Fraction (random36 env)"
    and id_fresh: "uuid env \<notin> set (map subscriber_id db)"
    and code_fresh: "Some (generateUniqueCode (random36 env)) \<notin> set (map referralCode db)"
  shows "fst (POST env db b) = Joined (Some (generateUniqueCode (random36 env)))
         \<and> snd (GET_count (snd (POST env db b))) = snd (GET_count db) + 1"
proof -
  from none have "findReferrer db (data_referralCode d) = Inr None"
    by (simp add: findReferrer_def)
  from POST_inserts [OF valid fresh this name_ok index_ok
      generateUniqueCode_storable [OF random_ok] id_fresh code_fresh]
  show ?thesis by (simp add: GET_count_def subscriberCount_def)
qed

lemma POST_failure_unchanged:
  assumes "\<forall>c. fst (POST env db b) \<noteq> Joined c"
  shows "snd (POST env db b) = db"
  using POST_store [of env db b] assms by auto

lemma create_wf_store:
  assumes "wf_store db" and "create env db e n rc rb = Inr (row, db')"
  shows "wf_store db'"
proof -
  from assms(2) have ok: "uuid env \<notin> set (map subscriber_id db)" "e \<notin> set (map email db)"
      "rc = None \<or> rc \<notin> set (map referralCode db)"
      "rb = None \<or> rb \<in> set (map (\<lambda>r. Some (subscriber_id r)) db)"
      "storableText e" "storableOption n" "storableOption rc"
    and db': "db' = db @ [newRow env e n rc rb]"
    by (auto simp: create_def split: if_splits)
  from assms(1) have fk: "list_all (\<lambda>s. referredBy s = None \<or>
      referredBy s \<in> set (map (\<lambda>r. Some (subscriber_id r)) (db @ [newRow env e n rc rb]))) db"
    by (auto simp: wf_store_def list_all_iff)
  from assms(1) ok fk show ?thesis
    unfolding db' wf_store_def by (auto simp: newRow_def)
qed

lemma POST_wf_store:
  assumes "wf_store db"
  shows "wf_store (snd (POST env db b))"
  using assms by (auto simp: POST_def split: sum.splits option.splits dest: create_wf_store)

lemma waitlistSchema_accepts:
  "(\<exists>d. waitlistSchema b = Inr d)
     = (\<exists>s n r. b = Object (JString s) n r \<and> isEmail s
          \<and> (n = JUndefined \<or> (\<exists>x. n = JString x)) \<and> (r = JUndefined \<or> (\<exists>x. r = JString x)))"
  by (cases b)
     (auto simp: waitlistSchema_def emailField_def optionalString_def
           split: json.splits sum.splits if_splits)

lemma POST_ValidationError:
  "(\<exists>errs. fst (POST env db b) = ValidationError errs)
     = (b \<noteq> InvalidJson \<and> \<not> (\<exists>d. waitlistSchema b = Inr d))"
  by (auto simp: POST_def create_def findReferrer_def
           split: sum.splits option.splits if_splits)

section \<open>The claims\<close>

subsection \<open>The generated referral code\<close>

text \<open>
  C1. A valid signup with no referral code and a new email is to succeed with a code
  of exactly eight upper-case alphanumeric characters. The handler does not always do
  so: when \<^verbatim>\<open>Math.random()\<close> returns 0.5, \<^verbatim>\<open>toString(36)\<close> is \<open>0.i\<close> and the code of
  the new subscriber is \<open>I\<close>, one character; and a second signup that draws a code
  which the table already holds is refused by the insert and answered with status 500,
  the table unchanged.
\<close>

theorem generateUniqueCode_short_or_taken:
  "POST (halfEnv ''id-1'' 1) [] aliceSignup = (Joined (Some ''I''), [alice ''I''])
   \<and> length ''I'' \<noteq> 8
   \<and> POST (halfEnv ''id-2'' 2) [alice ''I''] (bobSignup '''') = (PostFailed, [alice ''I''])
   \<and> post_status PostFailed = 500"
  by code_simp

subsection \<open>What the masking does\<close>

text \<open>
  C2. The emails that the referral statistics return are the referred subscribers'
  emails, each masked. The masking keeps the first two characters of the local part,
  replaces every other character of the local part by one \<open>*\<close> and leaves the \<open>@\<close> and
  the domain as they are, for every email \<open>local@domain\<close> whose domain holds no \<open>@\<close>
  and whose local part holds no line break. So \<open>johnsmith@example.com\<close> becomes
  \<open>jo*******@example.com\<close> (seven stars), and \<open>ab@example.com\<close> is returned unchanged.
\<close>

theorem referral_emails_masked:
  "(GET_referrals db code = Stats n l \<longrightarrow> findUniqueByReferralCode db (the code) = Inr (Some s) \<longrightarrow>
      map snd l = map (\<lambda>ref. maskEmail (email ref)) (referrals db s))
   \<and> (CHR ''@'' \<notin> set domain \<longrightarrow> list_all (\<lambda>c. \<not> isLineTerminator c) local \<longrightarrow>
        maskEmail (local @ CHR ''@'' # domain)
          = take 2 local @ replicate (length local - 2) CHR ''*'' @ CHR ''@'' # domain)
   \<and> maskEmail ''johnsmith@example.com'' = ''jo*******@example.com''
   \<and> maskEmail ''ab@example.com'' = ''ab@example.com''"
proof (intro conjI impI)
  assume "GET_referrals db code = Stats n l"
    and "findUniqueByReferralCode db (the code) = Inr (Some s)"
  then show "map snd l = map (\<lambda>ref. maskEmail (email ref)) (referrals db s)"
    by (auto simp: GET_referrals_def split: if_splits)
next
  assume "CHR ''@'' \<notin> set domain" and "list_all (\<lambda>c. \<not> isLineTerminator c) local"
  then show "maskEmail (local @ CHR ''@'' # domain)
      = take 2 local @ replicate (length local - 2) CHR ''*'' @ CHR ''@'' # domain"
    by (rule maskEmail_shape)
next
  show "maskEmail ''johnsmith@example.com'' = ''jo*******@example.com''"
    by code_simp
next
  show "maskEmail ''ab@example.com'' = ''ab@example.com''"
    by code_simp
qed

text \<open>
  The statistics of a subscriber whom \<open>bob@example.com\<close> names as referrer: the one
  email of the list is \<open>bo*@example.com\<close>, which is the local part \<open>bob\<close> masked and the
  domain \<open>example.com\<close>.
\<close>

theorem referral_emails_masked_witness:
  "GET_referrals [alice ''IABCDEFG'', bob ''4FZYO82M'' (Some ''id-1'')] (Some ''IABCDEFG'')
     = Stats 1 [(2, ''bo*@example.com'')]
   \<and> map snd [(2 :: nat, ''bo*@example.com'')]
     = map (\<lambda>ref. maskEmail (email ref))
         (referrals [alice ''IABCDEFG'', bob ''4FZYO82M'' (Some ''id-1'')] (alice ''IABCDEFG''))
   \<and> CHR ''@'' \<notin> set ''example.com''
   \<and> list_all (\<lambda>c. \<not> isLineTerminator c) ''bob''
   \<and> maskEmail ''bob@example.com'' = ''bo*@example.com''"
proof -
  let ?db = "[alice ''IABCDEFG'', bob ''4FZYO82M'' (Some ''id-1'')]"
  have g: "GET_referrals ?db (Some ''IABCDEFG'') = Stats 1 [(2, ''bo*@example.com'')]"
    by code_simp
  have f: "findUniqueByReferralCode ?db (the (Some ''IABCDEFG'')) = Inr (Some (alice ''IABCDEFG''))"
    by code_simp
  have d: "CHR ''@'' \<notin> set ''example.com''" by simp
  have b: "list_all (\<lambda>c. \<not> isLineTerminator c) ''bob''" by (simp add: isLineTerminator_def)
  note inst = referral_emails_masked [of ?db "Some ''IABCDEFG''" 1 "[(2, ''bo*@example.com'')]"
      "alice ''IABCDEFG''" "''example.com''" "''bob''"]
  from inst g f have 1: "map snd [(2 :: nat, ''bo*@example.com'')]
      = map (\<lambda>ref. maskEmail (email ref)) (referrals ?db (alice ''IABCDEFG''))"
    by blast
  from inst d b have "maskEmail (''bob'' @ CHR ''@'' # ''example.com'')
      = take 2 ''bob'' @ replicate (length ''bob'' - 2) CHR ''*'' @ CHR ''@'' # ''example.com''"
    by blast
  then have 2: "maskEmail ''bob@example.com'' = ''bo*@example.com''" by simp
  from g 1 d b 2 show ?thesis by blast
qed

subsection \<open>What the signup validates\<close>

text \<open>
  C3. A name that is present and empty, and an email of more than 100 characters, are
  to be refused with a validation error. The schema of the handler has no bound on a
  length: the signup with the empty name succeeds and writes the row, and so does the
  signup with a well-formed email of 101 characters.
\<close>

theorem POST_accepts_out_of_bounds:
  "POST (longEnv ''id-1'' 1) [] (Object (JString ''alice@example.com'') (JString '''') JUndefined)
     = (Joined (Some ''4FZYO82M''), [(alice ''4FZYO82M'')\<lparr> name := Some '''' \<rparr>])
   \<and> length (replicate 96 CHR ''a'' @ ''@b.co'') = 101
   \<and> fst (POST (longEnv ''id-1'' 1) []
        (Object (JString (replicate 96 CHR ''a'' @ ''@b.co'')) JUndefined JUndefined))
     = Joined (Some ''4FZYO82M'')"
  by code_simp

subsection \<open>The order of the two lookups\<close>

text \<open>
  A signup with the email of a subscriber and a referral code that nobody holds: the
  answer is the one of the duplicate email, not the one of the invalid code.
\<close>

theorem referral_before_email_counterexample:
  "findUniqueByReferralCode [alice ''4FZYO82M''] ''NOSUCHCODE'' = Inr None
   \<and> findUniqueByEmail [alice ''4FZYO82M''] ''alice@example.com'' = Inr (Some (alice ''4FZYO82M''))
   \<and> fst (POST (halfEnv ''id-2'' 2) [alice ''4FZYO82M'']
        (Object (JString ''alice@example.com'') JUndefined (JString ''NOSUCHCODE'')))
     = DuplicateEmail
   \<and> DuplicateEmail \<noteq> InvalidReferralCode"
  by code_simp

text \<open>
  C4, amended. The email is looked up before the referral code: for every valid signup
  that carries a referral code which no subscriber holds and an email that the table
  already holds, the failure reported is the duplicate email.
\<close>

theorem POST_email_before_referral:
  assumes "waitlistSchema b = Inr d" and "data_referralCode d = Some c"
    and "Some c \<notin> set (map referralCode db)" and "data_email d \<in> set (map email db)"
  shows "fst (POST env db b) = DuplicateEmail"
  using POST_duplicate [OF assms(1) assms(4)] by simp

theorem POST_email_before_referral_witness:
  "fst (POST (halfEnv ''id-2'' 2) [alice ''4FZYO82M'']
     (Object (JString ''alice@example.com'') JUndefined (JString ''NOSUCHCODE''))) = DuplicateEmail"
proof -
  let ?b = "Object (JString ''alice@example.com'') JUndefined (JString ''NOSUCHCODE'')"
  let ?d = "\<lparr> data_email = ''alice@example.com'', data_name = None,
              data_referralCode = Some ''NOSUCHCODE'' \<rparr>"
  have 1: "waitlistSchema ?b = Inr ?d" by code_simp
  have 2: "data_referralCode ?d = Some ''NOSUCHCODE''" by simp
  have 3: "Some ''NOSUCHCODE'' \<notin> set (map referralCode [alice ''4FZYO82M''])" by code_simp
  have 4: "data_email ?d \<in> set (map email [alice ''4FZYO82M''])" by code_simp
  from POST_email_before_referral [OF 1 2 3 4] show ?thesis .
qed

subsection \<open>A signup with an email that the table holds\<close>

text \<open>
  C5. For every valid signup whose email the table already holds, the answer is the
  duplicate email, with status 400, and the table is unchanged: no row is created, and
  the count is what it was.
\<close>

theorem POST_duplicate_email:
  assumes "waitlistSchema b = Inr d" and "data_email d \<in> set (map email db)"
  shows "POST env db b = (DuplicateEmail, db) \<and> post_status (fst (POST env db b)) = 400
         \<and> GET_count (snd (POST env db b)) = GET_count db"
  using POST_duplicate [OF assms] by simp

theorem POST_duplicate_email_witness:
  "POST (longEnv ''id-2'' 2) [alice ''I''] aliceSignup = (DuplicateEmail, [alice ''I''])
   \<and> post_status (fst (POST (longEnv ''id-2'' 2) [alice ''I''] aliceSignup)) = 400
   \<and> GET_count (snd (POST (longEnv ''id-2'' 2) [alice ''I''] aliceSignup)) = GET_count [alice ''I'']"
proof -
  let ?d = "\<lparr> data_email = ''alice@example.com'', data_name = Some ''Alice'',
              data_referralCode = None \<rparr>"
  have 1: "waitlistSchema aliceSignup = Inr ?d" by code_simp
  have 2: "data_email ?d \<in> set (map email [alice ''I''])" by code_simp
  from POST_duplicate_email [OF 1 2] show ?thesis .
qed

subsection \<open>A referral code that nobody holds\<close>

text \<open>
  A signup that supplies the empty string as referral code, which no subscriber holds:
  the lookup is skipped, the signup succeeds and the row is written, with no referrer.
  And a signup that supplies a code with the character U+0000, which no subscriber
  holds: the lookup throws, and the answer has status 500.
\<close>

theorem unknown_referral_code_counterexample:
  "Some '''' \<notin> set (map referralCode [alice ''4FZYO82M''])
   \<and> POST (halfEnv ''id-2'' 2) [alice ''4FZYO82M''] (bobSignup '''')
       = (Joined (Some ''I''), [alice ''4FZYO82M'', bob ''I'' None])
   \<and> Some [CHR ''A'', CHR 0x00] \<notin> set (map referralCode [alice ''4FZYO82M''])
   \<and> POST (halfEnv ''id-2'' 2) [alice ''4FZYO82M''] (bobSignup [CHR ''A'', CHR 0x00])
       = (PostFailed, [alice ''4FZYO82M''])
   \<and> post_status PostFailed = 500"
  by code_simp

text \<open>
  C6, amended. For every valid signup with a new email that supplies a referral code
  which is not the empty string, holds no U+0000 and is the code of no subscriber, the
  answer is the invalid referral code, with status 400, and no row is created.
\<close>

theorem POST_unknown_referral_code:
  assumes "waitlistSchema b = Inr d" and "data_email d \<notin> set (map email db)"
    and "data_referralCode d = Some c" and "c \<noteq> []" and "storableText c"
    and "Some c \<notin> set (map referralCode db)"
  shows "POST env db b = (InvalidReferralCode, db) \<and> post_status (fst (POST env db b)) = 400"
proof -
  from assms(1) have nb: "b \<noteq> InvalidJson" by (rule waitlistSchema_Inr_Object)
  from assms(1) have "storableText (data_email d)"
    by (intro isEmail_storable waitlistSchema_email)
  with assms(2) have fe: "findUniqueByEmail db (data_email d) = Inr None"
    by (simp add: findUniqueByEmail_None)
  from assms(5,6) have "findUniqueByReferralCode db c = Inr None"
    by (simp add: findUniqueByReferralCode_None)
  with assms(3,4) have "findReferrer db (data_referralCode d) = Inl InvalidReferralCode"
    by (simp add: findReferrer_def)
  with nb assms(1) fe show ?thesis by (simp add: POST_def)
qed

theorem POST_unknown_referral_code_witness:
  "POST (longEnv ''id-2'' 2) [alice ''4FZYO82M''] (bobSignup ''NOSUCHCODE'')
     = (InvalidReferralCode, [alice ''4FZYO82M''])
   \<and> post_status (fst (POST (longEnv ''id-2'' 2) [alice ''4FZYO82M''] (bobSignup ''NOSUCHCODE''))) = 400"
proof -
  let ?d = "\<lparr> data_email = ''bob@example.com'', data_name = None,
              data_referralCode = Some ''NOSUCHCODE'' \<rparr>"
  have 1: "waitlistSchema (bobSignup ''NOSUCHCODE'') = Inr ?d" by code_simp
  have 2: "data_email ?d \<notin> set (map email [alice ''4FZYO82M''])" by code_simp
  have 3: "data_referralCode ?d = Some ''NOSUCHCODE''" by simp
  have 4: "''NOSUCHCODE'' \<noteq> []" by simp
  have 5: "storableText ''NOSUCHCODE''" by code_simp
  have 6: "Some ''NOSUCHCODE'' \<notin> set (map referralCode [alice ''4FZYO82M''])" by code_simp
  from POST_unknown_referral_code [OF 1 2 3 4 5 6] show ?thesis .
qed

subsection \<open>A signup with the referral code of a subscriber\<close>

text \<open>
  Three signups that supply the referral code of the first subscriber. When the first
  subscriber drew the empty code (\<^verbatim>\<open>Math.random()\<close> returned 0), the lookup is skipped
  and the second row has no referrer. When she drew the code \<open>I\<close>, the second row is
  linked to her, and the statistics of the code \<open>I\<close> are refused before and after, as
  the code is shorter than three characters: no total is reported. When the name of the
  second signup holds the character U+0000, the insert throws and no row is written.
\<close>

theorem referral_code_of_subscriber_counterexample:
  "POST (zeroEnv ''id-1'' 1) [] aliceSignup = (Joined (Some ''''), [alice ''''])
   \<and> POST (longEnv ''id-2'' 2) [alice ''''] (bobSignup '''')
       = (Joined (Some ''4FZYO82M''), [alice '''', bob ''4FZYO82M'' None])
   \<and> POST (halfEnv ''id-1'' 1) [] aliceSignup = (Joined (Some ''I''), [alice ''I''])
   \<and> POST (longEnv ''id-2'' 2) [alice ''I''] (bobSignup ''I'')
       = (Joined (Some ''4FZYO82M''), [alice ''I'', bob ''4FZYO82M'' (Some ''id-1'')])
   \<and> GET_referrals [alice ''I''] (Some ''I'') = InvalidCodeFormat
   \<and> GET_referrals [alice ''I'', bob ''4FZYO82M'' (Some ''id-1'')] (Some ''I'') = InvalidCodeFormat
   \<and> POST (longEnv ''id-2'' 2) [alice ''IABCDEFG'']
        (Object (JString ''bob@example.com'') (JString [CHR ''B'', CHR 0x00]) (JString ''IABCDEFG''))
       = (PostFailed, [alice ''IABCDEFG''])"
  by code_simp

text \<open>
  C7, amended. Take a table that satisfies the constraints of the schema, a subscriber
  \<open>s\<close> of it whose referral code is not empty, and a valid signup with a new email that
  supplies this code; let the name hold no U+0000, the index hold the email, the random
  string be one of \<^verbatim>\<open>toString(36)\<close>, and the new identifier and the new code not be in
  the table yet. Then the signup succeeds and the row it adds has the id of \<open>s\<close> as
  \<open>referredBy\<close>. When the code has 3 to 20 characters, the statistics of the code then
  report one referral more than before, in a list that holds the new subscriber's date
  and masked email.
\<close>

theorem POST_with_referral_code:
  assumes wf: "wf_store db" and s: "s \<in> set db" and code: "referralCode s = Some c"
    and nonempty: "c \<noteq> []"
    and valid: "waitlistSchema b = Inr d" and rc: "data_referralCode d = Some c"
    and fresh: "data_email d \<notin> set (map email db)"
    and name_ok: "storableOption (data_name d)"
    and index_ok: "indexHolds env (data_email d)"
    and random_ok: "isBase36Fraction (random36 env)"
    and id_fresh: "uuid env \<notin> set (map subscriber_id db)"
    and code_fresh: "Some (generateUniqueCode (random36 env)) \<notin> set (map referralCode db)"
  shows "\<exists>row.
           POST env db b = (Joined (referralCode row), db @ [row])
           \<and> referredBy row = Some (subscriber_id s) \<and> email row = data_email d
           \<and> (3 \<le> length c \<and> length c \<le> 20 \<longrightarrow>
                (\<exists>n l l'. GET_referrals db (Some c) = Stats n l
                   \<and> GET_referrals (db @ [row]) (Some c) = Stats (n + 1) l'
                   \<and> (createdAt row, maskEmail (data_email d)) \<in> set l'))"
proof -
  let ?row = "newRow env (data_email d) (data_name d)
                (Some (generateUniqueCode (random36 env))) (Some (subscriber_id s))"
  from findUniqueByReferralCode_owner [OF wf s code]
  have found: "findUniqueByReferralCode db c = Inr (Some s)" .
  with nonempty rc have "findReferrer db (data_referralCode d) = Inr (Some (subscriber_id s))"
    by (simp add: findReferrer_def)
  from POST_inserts [OF valid fresh this name_ok index_ok
      generateUniqueCode_storable [OF random_ok] id_fresh code_fresh]
  have post: "POST env db b = (Joined (referralCode ?row), db @ [?row])"
    by (simp add: newRow_def)
  have by_s: "referredBy ?row = Some (subscriber_id s)" by (simp add: newRow_def)
  have mail: "email ?row = data_email d" by (simp add: newRow_def)
  have stats: "\<exists>n l l'. GET_referrals db (Some c) = Stats n l
       \<and> GET_referrals (db @ [?row]) (Some c) = Stats (n + 1) l'
       \<and> (createdAt ?row, maskEmail (data_email d)) \<in> set l'"
    if len: "3 \<le> length c" "length c \<le> 20"
  proof -
    from found have found': "findUniqueByReferralCode (db @ [?row]) c = Inr (Some s)"
      by (auto simp: findUniqueByReferralCode_def find_append_Some split: if_splits)
    have before: "GET_referrals db (Some c)
        = Stats (length (referrals db s))
            (map (\<lambda>ref. (createdAt ref, maskEmail (email ref))) (referrals db s))"
      using len found by (rule GET_referrals_found)
    have "GET_referrals (db @ [?row]) (Some c)
        = Stats (length (referrals (db @ [?row]) s))
            (map (\<lambda>ref. (createdAt ref, maskEmail (email ref))) (referrals (db @ [?row]) s))"
      using len found' by (rule GET_referrals_found)
    with by_s have after: "GET_referrals (db @ [?row]) (Some c)
        = Stats (length (referrals db s) + 1)
            (map (\<lambda>ref. (createdAt ref, maskEmail (email ref))) (referrals db s)
               @ [(createdAt ?row, maskEmail (data_email d))])"
      by (simp add: referrals_append) (simp add: newRow_def)
    have "(createdAt ?row, maskEmail (data_email d))
        \<in> set (map (\<lambda>ref. (createdAt ref, maskEmail (email ref))) (referrals db s)
               @ [(createdAt ?row, maskEmail (data_email d))])"
      by simp
    with before after show ?thesis by blast
  qed
  from post by_s mail stats show ?thesis by blast
qed

theorem POST_with_referral_code_witness:
  "\<exists>row n l l'.
     POST (longEnv ''id-2'' 2) [alice ''IABCDEFG''] (bobSignup ''IABCDEFG'')
       = (Joined (referralCode row), [alice ''IABCDEFG''] @ [row])
     \<and> referredBy row = Some (subscriber_id (alice ''IABCDEFG'')) \<and> email row = ''bob@example.com''
     \<and> GET_referrals [alice ''IABCDEFG''] (Some ''IABCDEFG'') = Stats n l
     \<and> GET_referrals ([alice ''IABCDEFG''] @ [row]) (Some ''IABCDEFG'') = Stats (n + 1) l'
     \<and> (createdAt row, maskEmail ''bob@example.com'') \<in> set l'"
proof -
  let ?d = "\<lparr> data_email = ''bob@example.com'', data_name = None,
              data_referralCode = Some ''IABCDEFG'' \<rparr>"
  have 1: "wf_store [alice ''IABCDEFG'']" by code_simp
  have 2: "alice ''IABCDEFG'' \<in> set [alice ''IABCDEFG'']" by simp
  have 3: "referralCode (alice ''IABCDEFG'') = Some ''IABCDEFG''" by (simp add: alice_def)
  have 4: "''IABCDEFG'' \<noteq> []" by simp
  have 5: "waitlistSchema (bobSignup ''IABCDEFG'') = Inr ?d" by code_simp
  have 6: "data_referralCode ?d = Some ''IABCDEFG''" by simp
  have 7: "data_email ?d \<notin> set (map email [alice ''IABCDEFG''])" by code_simp
  have 8: "storableOption (data_name ?d)" by (simp add: storableOption_def)
  have 9: "indexHolds (longEnv ''id-2'' 2) (data_email ?d)" by (simp add: longEnv_def)
  have 10: "isBase36Fraction (random36 (longEnv ''id-2'' 2))" by code_simp
  have 11: "uuid (longEnv ''id-2'' 2) \<notin> set (map subscriber_id [alice ''IABCDEFG''])"
    by code_simp
  have 12: "Some (generateUniqueCode (random36 (longEnv ''id-2'' 2)))
      \<notin> set (map referralCode [alice ''IABCDEFG''])"
    by code_simp
  have len: "3 \<le> length ''IABCDEFG'' \<and> length ''IABCDEFG'' \<le> 20" by simp
  from POST_with_referral_code [OF 1 2 3 4 5 6 7 8 9 10 11 12] len show ?thesis
    by (simp only: select_convs) blast
qed

subsection \<open>The shape of the code that the statistics accept\<close>

text \<open>
  The code of five characters that trims to one character passes the check of the
  shape (and is then not found); the code of 21 characters that trims to three
  characters is refused.
\<close>

theorem trimmed_code_counterexample:
  "length (trim ''  a  '') = 1 \<and> GET_referrals [] (Some ''  a  '') = NotFound
   \<and> length (trim (''abc'' @ replicate 18 CHR '' '')) = 3
   \<and> GET_referrals [] (Some (''abc'' @ replicate 18 CHR '' '')) = InvalidCodeFormat"
  by code_simp

text \<open>
  C8, amended. The statistics accept exactly the codes whose length, as sent and not
  trimmed, is between 3 and 20 characters; for every other code, and for a request
  with no code, the answer is the validation error, with status 400, whatever the table
  holds.
\<close>

theorem GET_referrals_code_shape:
  "(GET_referrals db code = InvalidCodeFormat)
     = (\<not> (\<exists>c. code = Some c \<and> 3 \<le> length c \<and> length c \<le> 20))
   \<and> referrals_status InvalidCodeFormat = 400"
  by (cases code)
     (auto simp: GET_referrals_def referralQuerySchema_def split: option.splits sum.splits)

subsection \<open>A code that nobody holds\<close>

text \<open>
  Two codes that no subscriber holds. The first has three characters after trimming,
  and 23 as sent: the answer is the validation error, with status 400. The second has
  four characters, one of them U+0000: the lookup throws, and the answer has status
  500. Neither answer is that the code is not found.
\<close>

theorem unknown_code_counterexample:
  "length (trim (''xyz'' @ replicate 20 CHR '' '')) = 3
   \<and> GET_referrals [] (Some (''xyz'' @ replicate 20 CHR '' '')) = InvalidCodeFormat
   \<and> referrals_status InvalidCodeFormat = 400
   \<and> length [CHR ''a'', CHR ''b'', CHR 0x00, CHR ''c''] = 4
   \<and> GET_referrals [] (Some [CHR ''a'', CHR ''b'', CHR 0x00, CHR ''c'']) = ReferralsFailed
   \<and> referrals_status ReferralsFailed = 500"
  by code_simp

text \<open>
  C9, amended. For every code whose length, as sent and not trimmed, is between 3 and
  20 characters, which holds no U+0000 and which no subscriber holds, the statistics
  answer that the code is not found, with status 404, and not with statistics of no
  referral.
\<close>

theorem GET_referrals_unknown_code:
  assumes "3 \<le> length c" and "length c \<le> 20" and "storableText c"
    and "Some c \<notin> set (map referralCode db)"
  shows "GET_referrals db (Some c) = NotFound
         \<and> referrals_status (GET_referrals db (Some c)) = 404
         \<and> GET_referrals db (Some c) \<noteq> Stats 0 []"
proof -
  from assms(3,4) have "findUniqueByReferralCode db c = Inr None"
    by (simp add: findUniqueByReferralCode_None)
  with assms(1,2) have "GET_referrals db (Some c) = NotFound"
    by (simp add: GET_referrals_def referralQuerySchema_def)
  then show ?thesis by simp
qed

theorem GET_referrals_unknown_code_witness:
  "GET_referrals [alice ''4FZYO82M''] (Some ''NOSUCHCODE'') = NotFound
   \<and> referrals_status (GET_referrals [alice ''4FZYO82M''] (Some ''NOSUCHCODE'')) = 404
   \<and> GET_referrals [alice ''4FZYO82M''] (Some ''NOSUCHCODE'') \<noteq> Stats 0 []"
proof -
  have 1: "3 \<le> length ''NOSUCHCODE''" by simp
  have 2: "length ''NOSUCHCODE'' \<le> 20" by simp
  have 3: "storableText ''NOSUCHCODE''" by code_simp
  have 4: "Some ''NOSUCHCODE'' \<notin> set (map referralCode [alice ''4FZYO82M''])" by code_simp
  from GET_referrals_unknown_code [OF 1 2 3 4] show ?thesis .
qed

subsection \<open>A code that nobody has used\<close>

text \<open>
  The subscriber who drew the code \<open>I\<close> has referred nobody; the statistics of that
  code are refused for its shape, and are not the statistics of no referral.
\<close>

theorem unused_short_code_counterexample:
  "POST (halfEnv ''id-1'' 1) [] aliceSignup = (Joined (Some ''I''), [alice ''I''])
   \<and> referralCode (alice ''I'') = Some ''I''
   \<and> Some (subscriber_id (alice ''I'')) \<notin> set (map referredBy [alice ''I''])
   \<and> GET_referrals [alice ''I''] (Some ''I'') = InvalidCodeFormat
   \<and> InvalidCodeFormat \<noteq> Stats 0 []"
  by code_simp

text \<open>
  C10, amended. For every subscriber of the table whose referral code has 3 to 20
  characters and whom no row names as referrer, the statistics of that code succeed,
  with a total of 0 and an empty list. The table is one that satisfies the constraints
  of the schema.
\<close>

theorem GET_referrals_unused_code:
  assumes wf: "wf_store db" and s: "s \<in> set db" and code: "referralCode s = Some c"
    and len: "3 \<le> length c" "length c \<le> 20"
    and unused: "Some (subscriber_id s) \<notin> set (map referredBy db)"
  shows "GET_referrals db (Some c) = Stats 0 []"
proof -
  from findUniqueByReferralCode_owner [OF wf s code]
  have "findUniqueByReferralCode db c = Inr (Some s)" .
  from GET_referrals_found [OF len this] referrals_empty [OF unused] show ?thesis by simp
qed

theorem GET_referrals_unused_code_witness:
  "GET_referrals [alice ''4FZYO82M''] (Some ''4FZYO82M'') = Stats 0 []"
proof -
  have 1: "wf_store [alice ''4FZYO82M'']" by code_simp
  have 2: "alice ''4FZYO82M'' \<in> set [alice ''4FZYO82M'']" by simp
  have 3: "referralCode (alice ''4FZYO82M'') = Some ''4FZYO82M''" by (simp add: alice_def)
  have 4: "3 \<le> length ''4FZYO82M''" "length ''4FZYO82M'' \<le> 20" by simp_all
  have 5: "Some (subscriber_id (alice ''4FZYO82M'')) \<notin> set (map referredBy [alice ''4FZYO82M''])"
    by code_simp
  from GET_referrals_unused_code [OF 1 2 3 4 5] show ?thesis .
qed

end
